theory Spec2Isabelle
  imports Complex_Main "HOL-Library.Word" "HOL-Library.Log_Nat"
begin

section \<open>The price calculator of gocommerce (calculator/calculator.go)\<close>

text \<open>
  The calculator works on \<open>uint64\<close> amounts (64-bit words, whose \<open>+\<close>, \<open>-\<close> and \<open>*\<close>
  wrap around) and rounds through \<open>float64\<close> intermediate values. Both are modelled as
  the code has them.
\<close>

type_synonym uint64 = "64 word"

subsection \<open>float64 values and arithmetic\<close>

text \<open>
  A \<open>float64\<close> is a finite binary64 number, an infinity or a NaN. Finite values are
  carried as rationals; every arithmetic result is rounded to the nearest binary64 value,
  ties to even (53 significant bits, least exponent \<open>-1022\<close>, gradual underflow, overflow
  to infinity from \<open>2 ^ 1024\<close>). The sign of a zero is not recorded: the calculator only
  divides by \<open>100\<close> and by \<open>100 + p\<close> with \<open>p \<ge> 0\<close>, compares zeros as equal and converts
  them to \<open>0\<close>.
\<close>

datatype float64 = Fin rat | PInf | NInf | NaN

definition ilog2 :: "rat \<Rightarrow> int" where
  \<comment> \<open>the binary exponent of a positive rational: \<open>2 powi ilog2 x \<le> x < 2 powi (ilog2 x + 1)\<close>\<close>
  "ilog2 x = (if 1 \<le> x then bitlen \<lfloor>x\<rfloor> - 1 else - bitlen (\<lceil>1 / x\<rceil> - 1))"

definition nearest_even :: "rat \<Rightarrow> int" where
  "nearest_even y =
     (let f = \<lfloor>y\<rfloor>; r = y - of_int f
      in if r < 1 / 2 then f
         else if 1 / 2 < r then f + 1
         else if even f then f else f + 1)"

definition rnd64 :: "rat \<Rightarrow> float64" where
  "rnd64 x =
     (if x = 0 then Fin 0
      else let e = max (ilog2 \<bar>x\<bar>) (- 1022);
               q = 2 powi (e - 52);
               r = of_int (nearest_even (x / q)) * q
           in if 2 ^ 1024 \<le> \<bar>r\<bar> then (if 0 < x then PInf else NInf) else Fin r)"

definition is_float64 :: "rat \<Rightarrow> bool" where
  \<comment> \<open>the rationals that are binary64 values\<close>
  "is_float64 x \<longleftrightarrow> rnd64 x = Fin x"

fun fneg :: "float64 \<Rightarrow> float64" where
  "fneg (Fin a) = Fin (- a)"
| "fneg PInf = NInf"
| "fneg NInf = PInf"
| "fneg NaN = NaN"

fun fadd :: "float64 \<Rightarrow> float64 \<Rightarrow> float64" where
  "fadd (Fin a) (Fin b) = rnd64 (a + b)"
| "fadd NaN _ = NaN"
| "fadd _ NaN = NaN"
| "fadd PInf NInf = NaN"
| "fadd NInf PInf = NaN"
| "fadd PInf _ = PInf"
| "fadd NInf _ = NInf"
| "fadd _ PInf = PInf"
| "fadd _ NInf = NInf"

definition fsub :: "float64 \<Rightarrow> float64 \<Rightarrow> float64" where
  "fsub a b = fadd a (fneg b)"

definition inf_of_sign :: "bool \<Rightarrow> float64" where
  "inf_of_sign positive = (if positive then PInf else NInf)"

fun fmul :: "float64 \<Rightarrow> float64 \<Rightarrow> float64" where
  "fmul (Fin a) (Fin b) = rnd64 (a * b)"
| "fmul NaN _ = NaN"
| "fmul _ NaN = NaN"
| "fmul (Fin a) PInf = (if a = 0 then NaN else inf_of_sign (0 < a))"
| "fmul (Fin a) NInf = (if a = 0 then NaN else inf_of_sign (a < 0))"
| "fmul PInf (Fin b) = (if b = 0 then NaN else inf_of_sign (0 < b))"
| "fmul NInf (Fin b) = (if b = 0 then NaN else inf_of_sign (b < 0))"
| "fmul PInf PInf = PInf"
| "fmul NInf NInf = PInf"
| "fmul PInf NInf = NInf"
| "fmul NInf PInf = NInf"

fun fdiv :: "float64 \<Rightarrow> float64 \<Rightarrow> float64" where
  "fdiv (Fin a) (Fin b) =
     (if b = 0 then (if a = 0 then NaN else inf_of_sign (0 < a)) else rnd64 (a / b))"
| "fdiv NaN _ = NaN"
| "fdiv _ NaN = NaN"
| "fdiv (Fin a) _ = Fin 0"
| "fdiv PInf (Fin b) = inf_of_sign (0 \<le> b)"
| "fdiv NInf (Fin b) = inf_of_sign (b < 0)"
| "fdiv _ _ = NaN"

fun fless :: "float64 \<Rightarrow> float64 \<Rightarrow> bool" where
  "fless (Fin a) (Fin b) \<longleftrightarrow> a < b"
| "fless NaN _ \<longleftrightarrow> False"
| "fless _ NaN \<longleftrightarrow> False"
| "fless _ NInf \<longleftrightarrow> False"
| "fless PInf _ \<longleftrightarrow> False"
| "fless NInf _ \<longleftrightarrow> True"
| "fless _ PInf \<longleftrightarrow> True"

fun feq :: "float64 \<Rightarrow> float64 \<Rightarrow> bool" where
  "feq (Fin a) (Fin b) \<longleftrightarrow> a = b"
| "feq PInf PInf \<longleftrightarrow> True"
| "feq NInf NInf \<longleftrightarrow> True"
| "feq _ _ \<longleftrightarrow> False"

definition int_part :: "rat \<Rightarrow> int" where
  \<comment> \<open>the integer part, towards zero\<close>
  "int_part x = (if 0 \<le> x then \<lfloor>x\<rfloor> else \<lceil>x\<rceil>)"

fun Modf :: "float64 \<Rightarrow> float64 \<times> float64" where
  \<comment> \<open>\<open>math.Modf\<close>: integer and fractional part, both with the sign of the argument\<close>
  "Modf (Fin x) = (Fin (of_int (int_part x)), Fin (x - of_int (int_part x)))"
| "Modf PInf = (PInf, NaN)"
| "Modf NInf = (NInf, NaN)"
| "Modf NaN = (NaN, NaN)"

definition float64_of :: "uint64 \<Rightarrow> float64" where
  \<comment> \<open>the conversion \<open>float64(n)\<close> of a \<open>uint64\<close>\<close>
  "float64_of n = rnd64 (of_nat (unat n))"

text \<open>
  What the program takes from its platform and its standard library. The conversion
  \<open>uint64(v)\<close> discards the fraction of \<open>v\<close>; when the result is not a \<open>uint64\<close> value
  the conversion still succeeds and Go leaves the result to the implementation:
  \<open>unrepresentable\<close> is that result. \<open>ParseFloat\<close> is the value that
  \<open>strconv.ParseFloat(s, 64)\<close> returns next to its error.
\<close>

record runtime =
  unrepresentable :: "float64 \<Rightarrow> uint64"
  ParseFloat :: "string \<Rightarrow> float64"

definition uint64_of :: "runtime \<Rightarrow> float64 \<Rightarrow> uint64" where
  "uint64_of rt v =
     (case v of
        Fin x \<Rightarrow> if 0 \<le> int_part x \<and> int_part x < 2 ^ 64 then word_of_int (int_part x)
                 else unrepresentable rt v
      | _ \<Rightarrow> unrepresentable rt v)"

subsection \<open>Rounding\<close>

definition rint :: "runtime \<Rightarrow> float64 \<Rightarrow> uint64" where
  "rint rt x =
     (let (v, frac) = Modf x;
          v' = (if fless (Fin 0) x then
                  (if fless (Fin (1 / 2)) frac \<or> (feq frac (Fin (1 / 2)) \<and> uint64_of rt v mod 2 \<noteq> 0)
                   then fadd v (Fin 1) else v)
                else
                  (if fless frac (Fin (- (1 / 2))) \<or> (feq frac (Fin (- (1 / 2))) \<and> uint64_of rt v mod 2 \<noteq> 0)
                   then fsub v (Fin 1) else v))
      in uint64_of rt v')"

subsection \<open>Data model\<close>

record Tax =
  Tax_Percentage :: uint64
  Tax_ProductTypes :: "string list"
  Tax_Countries :: "string list"

record taxAmount =
  price :: uint64
  percentage :: uint64

record FixedMemberDiscount =
  Amount :: string
  Currency :: string

text \<open>
  \<open>Claims\<close> is a Go map from claim names to required values; it is carried as the list
  of its entries.
\<close>

record MemberDiscount =
  Claims :: "(string \<times> string) list"
  Percentage :: uint64
  FixedAmount :: "FixedMemberDiscount list"
  ProductTypes :: "string list"
  Products :: "string list"

record Settings =
  PricesIncludeTaxes :: bool
  Settings_Taxes :: "Tax list"
  MemberDiscounts :: "MemberDiscount list"

record ItemPrice =
  Quantity :: uint64
  Item_Subtotal :: uint64
  Item_Discount :: uint64
  Item_Taxes :: uint64
  Item_Total :: uint64

record Price =
  Items :: "ItemPrice list"
  Subtotal :: uint64
  Discount :: uint64
  Taxes :: uint64
  Total :: uint64

text \<open>The interface \<open>Item\<close>, as the values its six methods return.\<close>

datatype Item = Item
  (ProductSku: string)
  (PriceInLowestUnit: uint64)
  (ProductType: string)
  (FixedVAT: uint64)
  (TaxableItems: "Item list")
  (GetQuantity: uint64)

text \<open>The interface \<open>Coupon\<close>, as its five methods.\<close>

record Coupon =
  Coupon_ValidForType :: "string \<Rightarrow> bool"
  Coupon_ValidForPrice :: "string \<Rightarrow> uint64 \<Rightarrow> bool"
  Coupon_ValidForProduct :: "string \<Rightarrow> bool"
  PercentageDiscount :: uint64
  Coupon_FixedDiscount :: "string \<Rightarrow> uint64"

text \<open>A value of a JWT claim (\<open>interface{}\<close>): a string, or a value of another kind.\<close>

datatype claim_value = StringClaim string | OtherClaim

type_synonym jwt_claims = "string \<rightharpoonup> claim_value"

subsection \<open>Member discounts and tax rules\<close>

definition ValidForType :: "MemberDiscount \<Rightarrow> string \<Rightarrow> bool" where
  "ValidForType d productType =
     (if ProductTypes d = [] then True else productType \<in> set (ProductTypes d))"

definition ValidForProduct :: "MemberDiscount \<Rightarrow> string \<Rightarrow> bool" where
  "ValidForProduct d productSku =
     (if Products d = [] then True else productSku \<in> set (Products d))"

definition FixedDiscount :: "runtime \<Rightarrow> MemberDiscount \<Rightarrow> string \<Rightarrow> uint64" where
  "FixedDiscount rt d currency =
     (case find (\<lambda>discount. Currency discount = currency) (FixedAmount d) of
        Some discount \<Rightarrow> rint rt (fmul (ParseFloat rt (Amount discount)) (Fin 100))
      | None \<Rightarrow> 0)"

definition AppliesTo :: "Tax \<Rightarrow> string \<Rightarrow> string \<Rightarrow> bool" where
  "AppliesTo t country productType =
     (let applies = (if Tax_ProductTypes t \<noteq> [] then productType \<in> set (Tax_ProductTypes t)
                     else True)
      in if \<not> applies then False
         else if Tax_Countries t \<noteq> [] then country \<in> set (Tax_Countries t)
         else applies)"

text \<open>
  Modelled from the spec: \<open>claims.HasClaims\<close> of the package \<open>gocommerce/claims\<close>, which
  is not among the sources. The spec: the caller's claims satisfy all entries in the
  discount's required-claims mapping (all must match).
\<close>

definition HasClaims :: "jwt_claims \<Rightarrow> (string \<times> string) list \<Rightarrow> bool" where
  "HasClaims userClaims requiredClaims =
     list_all (\<lambda>(k, v). userClaims k = Some (StringClaim v)) requiredClaims"

subsection \<open>The calculation\<close>

definition calculateDiscount :: "runtime \<Rightarrow> uint64 \<Rightarrow> uint64 \<Rightarrow> uint64 \<Rightarrow> uint64 \<Rightarrow> bool \<Rightarrow> uint64" where
  "calculateDiscount rt amountToDiscount taxes percent fixed includeTaxes =
     (let amountToDiscount = (if includeTaxes then amountToDiscount + taxes else amountToDiscount);
          discount = (if 0 < percent
                      then rint rt (fdiv (fmul (float64_of amountToDiscount) (float64_of percent)) (Fin 100))
                      else 0);
          discount = discount + fixed
      in if amountToDiscount < discount then amountToDiscount else discount)"

text \<open>
  The body of the loop over \<open>items\<close> is split into the tax resolution (the
  \<open>if\<close>/\<open>else if\<close> chain that fills \<open>taxAmounts\<close>), the loop that applies the tax
  amounts, the coupon discount, the loop over the member discounts, and the item total.
\<close>

definition firstTax :: "Tax list \<Rightarrow> string \<Rightarrow> string \<Rightarrow> Tax option" where
  \<comment> \<open>\<open>for _, t := range settings.Taxes { if t.AppliesTo(...) { ...; break } }\<close>\<close>
  "firstTax taxes country productType = find (\<lambda>t. AppliesTo t country productType) taxes"

definition resolveTaxAmounts :: "Settings option \<Rightarrow> string \<Rightarrow> Item \<Rightarrow> uint64 \<Rightarrow> taxAmount list" where
  "resolveTaxAmounts settings country item subtotal =
     (if FixedVAT item \<noteq> 0 then [\<lparr>price = subtotal, percentage = FixedVAT item\<rparr>]
      else case settings of
        None \<Rightarrow> []
      | Some s \<Rightarrow>
          if TaxableItems item \<noteq> [] then
            map (\<lambda>sub. \<lparr>price = PriceInLowestUnit sub,
                         percentage = (case firstTax (Settings_Taxes s) country (ProductType sub) of
                                         Some t \<Rightarrow> Tax_Percentage t
                                       | None \<Rightarrow> 0)\<rparr>)
                (TaxableItems item)
          else
            (case firstTax (Settings_Taxes s) country (ProductType item) of
               Some t \<Rightarrow> [\<lparr>price = subtotal, percentage = Tax_Percentage t\<rparr>]
             | None \<Rightarrow> []))"

definition applyTax :: "runtime \<Rightarrow> bool \<Rightarrow> uint64 \<times> uint64 \<Rightarrow> taxAmount \<Rightarrow> uint64 \<times> uint64" where
  \<comment> \<open>one round of the loop over \<open>taxAmounts\<close>, on the pair (Subtotal, Taxes) of the item\<close>
  "applyTax rt includeTaxes st tax =
     (let (subtotal, taxes) = st;
          taxPrice = (if includeTaxes
                      then rint rt (fmul (fdiv (float64_of (price tax))
                                               (fadd (Fin 100) (float64_of (percentage tax))))
                                         (Fin 100))
                      else price tax);
          subtotal = (if includeTaxes then subtotal + taxPrice else subtotal)
      in (subtotal,
          taxes + rint rt (fdiv (fmul (float64_of taxPrice) (float64_of (percentage tax))) (Fin 100))))"

definition applyTaxes :: "runtime \<Rightarrow> bool \<Rightarrow> uint64 \<Rightarrow> taxAmount list \<Rightarrow> uint64 \<times> uint64" where
  "applyTaxes rt includeTaxes subtotal taxAmounts =
     (if taxAmounts \<noteq> []
      then foldl (applyTax rt includeTaxes) (if includeTaxes then 0 else subtotal, 0) taxAmounts
      else (subtotal, 0))"

definition couponDiscount :: "runtime \<Rightarrow> Coupon option \<Rightarrow> string \<Rightarrow> Item \<Rightarrow> uint64 \<Rightarrow> uint64 \<Rightarrow> bool \<Rightarrow> uint64" where
  "couponDiscount rt coupon currency item subtotal taxes includeTaxes =
     (case coupon of
        None \<Rightarrow> 0
      | Some c \<Rightarrow>
          if Coupon_ValidForType c (ProductType item) \<and> Coupon_ValidForProduct c (ProductSku item)
          then calculateDiscount rt subtotal taxes (PercentageDiscount c)
                 (Coupon_FixedDiscount c currency) includeTaxes
          else 0)"

definition memberApplies :: "jwt_claims option \<Rightarrow> Item \<Rightarrow> MemberDiscount \<Rightarrow> bool" where
  \<comment> \<open>the condition of the \<open>if\<close> inside the loop over \<open>settings.MemberDiscounts\<close>\<close>
  "memberApplies jwtClaims item discount =
     (case jwtClaims of
        None \<Rightarrow> False
      | Some userClaims \<Rightarrow>
          HasClaims userClaims (Claims discount) \<and> ValidForType discount (ProductType item))"

definition addMemberDiscount ::
  "runtime \<Rightarrow> jwt_claims option \<Rightarrow> string \<Rightarrow> Item \<Rightarrow> uint64 \<Rightarrow> uint64 \<Rightarrow> bool \<Rightarrow> uint64 \<Rightarrow> MemberDiscount \<Rightarrow> uint64" where
  "addMemberDiscount rt jwtClaims currency item subtotal taxes includeTaxes itemDiscount discount =
     (if memberApplies jwtClaims item discount
      then itemDiscount + calculateDiscount rt subtotal taxes (Percentage discount)
                            (FixedDiscount rt discount currency) includeTaxes
      else itemDiscount)"

definition calculateItem ::
  "runtime \<Rightarrow> Settings option \<Rightarrow> jwt_claims option \<Rightarrow> string \<Rightarrow> string \<Rightarrow> Coupon option \<Rightarrow> Item \<Rightarrow> ItemPrice" where
  "calculateItem rt settings jwtClaims country currency coupon item =
     (let includeTaxes = (case settings of None \<Rightarrow> False | Some s \<Rightarrow> PricesIncludeTaxes s);
          taxAmounts = resolveTaxAmounts settings country item (PriceInLowestUnit item);
          (subtotal, taxes) = applyTaxes rt includeTaxes (PriceInLowestUnit item) taxAmounts;
          discount = couponDiscount rt coupon currency item subtotal taxes includeTaxes;
          discount = (case settings of
                        None \<Rightarrow> discount
                      | Some s \<Rightarrow>
                          foldl (addMemberDiscount rt jwtClaims currency item subtotal taxes includeTaxes)
                            discount (MemberDiscounts s));
          total = subtotal - discount + taxes;
          total = (if total < 0 then 0 else total)
      in \<lparr>Quantity = GetQuantity item, Item_Subtotal = subtotal, Item_Discount = discount,
          Item_Taxes = taxes, Item_Total = total\<rparr>)"

definition addItem :: "Price \<Rightarrow> ItemPrice \<Rightarrow> Price" where
  "addItem p itemPrice =
     \<lparr>Items = Items p @ [itemPrice],
      Subtotal = Subtotal p + Item_Subtotal itemPrice * Quantity itemPrice,
      Discount = Discount p + Item_Discount itemPrice * Quantity itemPrice,
      Taxes = Taxes p + Item_Taxes itemPrice * Quantity itemPrice,
      Total = Total p + Item_Total itemPrice * Quantity itemPrice\<rparr>"

definition CalculatePrice ::
  "runtime \<Rightarrow> Settings option \<Rightarrow> jwt_claims option \<Rightarrow> string \<Rightarrow> string \<Rightarrow> Coupon option \<Rightarrow> Item list \<Rightarrow> Price" where
  "CalculatePrice rt settings jwtClaims country currency coupon items =
     (let p = foldl (\<lambda>p item. addItem p (calculateItem rt settings jwtClaims country currency coupon item))
                \<lparr>Items = [], Subtotal = 0, Discount = 0, Taxes = 0, Total = 0\<rparr> items
      in p\<lparr>Total := Subtotal p - Discount p + Taxes p\<rparr>)"

subsection \<open>Round half to even, as the spec words it\<close>

text \<open>
  An integer \<open>n\<close> is \<open>x\<close> rounded half to even when it is a nearest integer of \<open>x\<close>
  and, where \<open>x\<close> lies exactly halfway between two integers, the even one.
\<close>

definition round_half_even :: "rat \<Rightarrow> int \<Rightarrow> bool" where
  "round_half_even x n \<longleftrightarrow> \<bar>x - of_int n\<bar> \<le> 1 / 2 \<and> (\<bar>x - of_int n\<bar> = 1 / 2 \<longrightarrow> even n)"

subsection \<open>Inputs used in the examples\<close>

text \<open>
  A runtime for the examples: an unrepresentable finite value converts to its integer part
  modulo \<open>2 ^ 64\<close> (what the amd64 code generator yields for a negative value within the
  \<open>int64\<close> range), anything else to \<open>2 ^ 63\<close>. The examples carry no fixed member
  discount, so the parser is never consulted; it is fixed to the value that a syntax error
  yields.
\<close>

definition rt_wrap :: runtime where
  "rt_wrap = \<lparr>unrepresentable = (\<lambda>v. case v of Fin x \<Rightarrow> word_of_int (int_part x) | _ \<Rightarrow> 2 ^ 63),
              ParseFloat = (\<lambda>s. Fin 0)\<rparr>"

definition vat20 :: Tax where
  "vat20 = \<lparr>Tax_Percentage = 20, Tax_ProductTypes = [], Tax_Countries = []\<rparr>"

definition books7 :: Tax where
  "books7 = \<lparr>Tax_Percentage = 7, Tax_ProductTypes = [''book''], Tax_Countries = []\<rparr>"

definition luxury25 :: Tax where
  "luxury25 = \<lparr>Tax_Percentage = 25, Tax_ProductTypes = [''ebook''], Tax_Countries = [''DE'']\<rparr>"

definition gold :: MemberDiscount where
  "gold = \<lparr>Claims = [(''plan'', ''gold'')], Percentage = 60, FixedAmount = [],
           ProductTypes = [], Products = [''sku-1'']\<rparr>"

definition gold_claims :: jwt_claims where
  "gold_claims = [''plan'' \<mapsto> StringClaim ''gold'']"

definition coupon60 :: Coupon where
  "coupon60 = \<lparr>Coupon_ValidForType = (\<lambda>productType. True),
               Coupon_ValidForPrice = (\<lambda>currency amount. True),
               Coupon_ValidForProduct = (\<lambda>productSku. True),
               PercentageDiscount = 60,
               Coupon_FixedDiscount = (\<lambda>currency. 0)\<rparr>"

definition ebook :: Item where
  "ebook = Item ''sku-1'' 1000 ''ebook'' 0 [] 1"

section \<open>Properties\<close>

subsection \<open>Rounding to float64\<close>

lemma bitlen_pos: "0 < n \<Longrightarrow> 1 \<le> bitlen n"
  by (simp add: bitlen_ge_iff_power)

lemma ilog2_bounds:
  assumes "0 < x"
  shows "2 powi (ilog2 x) \<le> x \<and> x < 2 powi (ilog2 x + 1)"
proof (cases "1 \<le> x")
  case True
  define n where "n = \<lfloor>x\<rfloor>"
  define b where "b = bitlen n"
  have n: "1 \<le> n" using True by (simp add: n_def le_floor_iff)
  then have b: "1 \<le> b" unfolding b_def by (intro bitlen_pos) simp
  have bb: "2 ^ nat (b - 1) \<le> n" "n < 2 ^ nat b"
    using bitlen_bounds [of n] n by (simp_all add: b_def)
  have e: "ilog2 x = b - 1" using True by (simp add: ilog2_def n_def b_def)
  have "(2::rat) powi (b - 1) = of_int (2 ^ nat (b - 1))"
    using b by (simp add: power_int_def)
  also have "\<dots> \<le> of_int n" using bb(1) by (simp only: of_int_le_iff)
  also have "\<dots> \<le> x" by (simp add: n_def)
  finally have lo: "2 powi (b - 1) \<le> x" .
  have "x < of_int (n + 1)" using floor_correct [of x] by (simp add: n_def)
  also have "\<dots> \<le> of_int (2 ^ nat b)"
  proof -
    have "n + 1 \<le> 2 ^ nat b" using bb(2) by simp
    then show ?thesis by (simp only: of_int_le_iff)
  qed
  also have "\<dots> = (2::rat) powi b" using b by (simp add: power_int_def)
  finally have hi: "x < 2 powi b" .
  show ?thesis using lo hi by (simp add: e)
next
  case False
  define y where "y = 1 / x"
  define m where "m = \<lceil>y\<rceil> - 1"
  define b where "b = bitlen m"
  have y: "1 < y" using False assms by (simp add: y_def)
  have x: "x = 1 / y" "0 < y" using assms by (simp_all add: y_def)
  have m: "1 \<le> m" using y by (simp add: m_def less_ceiling_iff)
  then have b: "1 \<le> b" unfolding b_def by (intro bitlen_pos) simp
  have bb: "2 ^ nat (b - 1) \<le> m" "m < 2 ^ nat b"
    using bitlen_bounds [of m] m by (simp_all add: b_def)
  have e: "ilog2 x = - b" using False by (simp add: ilog2_def m_def b_def y_def)
  have my: "of_int m < y" "y \<le> of_int (m + 1)"
    using ceiling_correct [of y] by (simp_all add: m_def)
  have "y \<le> of_int (2 ^ nat b)"
  proof -
    have "m + 1 \<le> 2 ^ nat b" using bb(2) by simp
    then have "(of_int (m + 1) :: rat) \<le> of_int (2 ^ nat b)" by (simp only: of_int_le_iff)
    with my(2) show ?thesis by linarith
  qed
  then have "y \<le> 2 ^ nat b" by simp
  then have "1 / (2 ^ nat b) \<le> 1 / y" using x(2) by (simp add: frac_le)
  moreover have "(2::rat) powi (- b) = 1 / 2 ^ nat b"
    using b by (simp add: power_int_def field_simps)
  ultimately have lo: "2 powi (- b) \<le> x" by (simp add: x(1))
  have p1: "(of_int (2 ^ nat (b - 1)) :: rat) \<le> of_int m" using bb(1) by (simp only: of_int_le_iff)
  have p2: "(of_int (2 ^ nat (b - 1)) :: rat) = 2 ^ nat (b - 1)" by simp
  have "(2::rat) ^ nat (b - 1) < y" using p1 my(1) unfolding p2 by linarith
  then have "1 / y < 1 / 2 ^ nat (b - 1)" by (simp add: frac_less2)
  moreover have "(2::rat) powi (- b + 1) = 1 / 2 ^ nat (b - 1)"
  proof -
    have "- b + 1 = - (b - 1)" by simp
    then show ?thesis using b by (simp add: power_int_def field_simps)
  qed
  ultimately have hi: "x < 2 powi (- b + 1)" by (simp add: x(1))
  show ?thesis using lo hi by (simp add: e)
qed

lemma ilog2_unique:
  assumes "0 < x" "2 powi e \<le> x" "x < 2 powi (e + 1)"
  shows "ilog2 x = e"
proof -
  from ilog2_bounds [OF assms(1)]
  have b: "2 powi (ilog2 x) \<le> x" "x < 2 powi (ilog2 x + 1)" by simp_all
  have "\<not> e + 1 \<le> ilog2 x"
  proof
    assume "e + 1 \<le> ilog2 x"
    then have "(2::rat) powi (e + 1) \<le> 2 powi (ilog2 x)" by (intro power_int_increasing) simp_all
    with b(1) assms(3) show False by linarith
  qed
  moreover have "\<not> ilog2 x + 1 \<le> e"
  proof
    assume "ilog2 x + 1 \<le> e"
    then have "(2::rat) powi (ilog2 x + 1) \<le> 2 powi e" by (intro power_int_increasing) simp_all
    with b(2) assms(2) show False by linarith
  qed
  ultimately show ?thesis by linarith
qed


lemma nearest_even_of_int [simp]: "nearest_even (of_int m) = m"
  by (simp add: nearest_even_def)

lemma rnd64_exact:
  assumes "x \<noteq> 0" "2 powi e \<le> \<bar>x\<bar>" "\<bar>x\<bar> < 2 powi (e + 1)" "- 1022 \<le> e" "e < 1024"
    and "x = of_int m * 2 powi (e - 52)"
  shows "rnd64 x = Fin x"
proof -
  have e: "ilog2 \<bar>x\<bar> = e" using assms(1-3) by (intro ilog2_unique) simp_all
  have q: "x / 2 powi (e - 52) = of_int m" by (simp add: assms(6))
  have "(2::rat) powi (e + 1) \<le> 2 powi 1024"
    using assms(5) by (intro power_int_increasing) simp_all
  then have "\<bar>x\<bar> < 2 ^ 1024" using assms(3) by simp
  then have lt: "\<not> 2 ^ 1024 \<le> \<bar>x\<bar>" by simp
  have m: "max (ilog2 \<bar>x\<bar>) (- 1022) = e" using e assms(4) by simp
  have r: "of_int (nearest_even (x / 2 powi (e - 52))) * 2 powi (e - 52) = x"
    by (simp only: q nearest_even_of_int assms(6) [symmetric])
  show ?thesis
    unfolding rnd64_def Let_def m r using assms(1) lt by (simp only: if_False)
qed

lemma rnd64_of_int:
  assumes "\<bar>n\<bar> \<le> 2 ^ 53"
  shows "rnd64 (of_int n) = Fin (of_int n)"
proof (cases "n = 0")
  case True
  then show ?thesis by (simp add: rnd64_def)
next
  case False
  define x :: rat where "x = of_int n"
  define e where "e = ilog2 \<bar>x\<bar>"
  have xpos: "0 < \<bar>x\<bar>" "1 \<le> \<bar>x\<bar>" using False by (simp_all add: x_def flip: of_int_abs)
  have b: "2 powi e \<le> \<bar>x\<bar>" "\<bar>x\<bar> < 2 powi (e + 1)"
    using ilog2_bounds [OF xpos(1)] by (simp_all add: e_def)
  have e0: "0 \<le> e"
  proof -
    have "1 \<le> \<lfloor>\<bar>x\<bar>\<rfloor>" using xpos(2) by (simp add: le_floor_iff)
    then have "1 \<le> bitlen \<lfloor>\<bar>x\<bar>\<rfloor>" by (intro bitlen_pos) simp
    then show ?thesis using xpos(2) by (simp add: e_def ilog2_def)
  qed
  have xle: "\<bar>x\<bar> \<le> 2 powi 53"
  proof -
    have "(of_int \<bar>n\<bar> :: rat) \<le> of_int (2 ^ 53)" using assms by (simp only: of_int_le_iff)
    then show ?thesis by (simp add: x_def)
  qed
  have xne: "x \<noteq> 0" using False by (simp add: x_def)
  have e53: "e \<le> 53"
  proof (rule ccontr)
    assume "\<not> e \<le> 53"
    then have "54 \<le> e" by simp
    then have "(2::rat) powi 54 \<le> 2 powi e" by (intro power_int_increasing) simp_all
    with b(1) xle show False by simp
  qed
  show ?thesis
  proof (cases "e \<le> 52")
    case True
    have lo: "- 1022 \<le> e" and hi: "e < 1024" using e0 e53 by simp_all
    have rep: "x = of_int (n * 2 ^ nat (52 - e)) * 2 powi (e - 52)"
    proof -
      have "(2::rat) powi (e - 52) = 1 / 2 ^ nat (52 - e)"
        using True by (simp add: power_int_def field_simps)
      then show ?thesis by (simp add: x_def)
    qed
    have "rnd64 x = Fin x"
      by (rule rnd64_exact [OF xne b(1) b(2) lo hi rep])
    then show ?thesis by (simp add: x_def)
  next
    case False
    then have e: "e = 53" using e53 by simp
    have lo: "- 1022 \<le> e" and hi: "e < 1024" using e by simp_all
    have "\<bar>x\<bar> = 2 ^ 53" using b(1) xle by (simp add: e)
    then have rep: "x = of_int ((if 0 < x then 1 else - 1) * 2 ^ 52) * 2 powi (e - 52)"
      by (simp add: e abs_if split: if_splits)
    have "rnd64 x = Fin x"
      by (rule rnd64_exact [OF xne b(1) b(2) lo hi rep])
    then show ?thesis by (simp add: x_def)
  qed
qed

lemma int_part_of_int [simp]: "int_part (of_int n) = n"
  by (simp add: int_part_def)

lemma rnd64_numeral:
  "(numeral k :: int) \<le> 2 ^ 53 \<Longrightarrow> rnd64 (numeral k) = Fin (numeral k)"
  using rnd64_of_int [of "numeral k"] by simp

lemma rint_of_int:
  assumes "0 \<le> n" "n < 2 ^ 64"
  shows "rint rt (Fin (of_int n)) = word_of_int n"
proof -
  have m: "Modf (Fin (of_int n)) = (Fin (of_int n), Fin 0)" by simp
  have u: "uint64_of rt (Fin (of_int n)) = word_of_int n"
    using assms by (simp add: uint64_of_def)
  show ?thesis unfolding rint_def m by (simp add: u)
qed

lemma rint_numeral:
  "(numeral k :: int) < 2 ^ 64 \<Longrightarrow> rint rt (Fin (numeral k)) = numeral k"
  using rint_of_int [of "numeral k" rt] by simp

lemma rint_0: "rint rt (Fin 0) = 0"
  using rint_of_int [of 0 rt] by simp

lemma floor_rat_numeral:
  "\<lfloor>numeral a / numeral b :: rat\<rfloor> = numeral a div numeral b"
  using floor_divide_of_int_eq [of "numeral a" "numeral b", where ?'a = rat] by simp

text \<open>
  The float64 values of \<open>1000 / 120\<close>, of that quotient times \<open>100\<close> and of
  \<open>16660 / 100\<close>, and what \<open>rint\<close> makes of the last two.
\<close>

lemma rnd64_25_3: "rnd64 (25 / 3) = Fin (4691249611844267 / 562949953421312)"
proof -
  have i: "ilog2 (25 / 3) = 3" by (rule ilog2_unique) simp_all
  show ?thesis by (simp add: rnd64_def i nearest_even_def Let_def floor_rat_numeral)
qed

lemma rnd64_833_33:
  "rnd64 (117281240296106675 / 140737488355328) = Fin (7330077518506667 / 8796093022208)"
proof -
  have i: "ilog2 (117281240296106675 / 140737488355328) = 9" by (rule ilog2_unique) simp_all
  show ?thesis by (simp add: rnd64_def i nearest_even_def Let_def floor_rat_numeral)
qed

lemma rnd64_166_6: "rnd64 (833 / 5) = Fin (5861716389999411 / 35184372088832)"
proof -
  have i: "ilog2 (833 / 5) = 7" by (rule ilog2_unique) simp_all
  show ?thesis by (simp add: rnd64_def i nearest_even_def Let_def floor_rat_numeral)
qed

lemma rint_833_33: "rint rt (Fin (7330077518506667 / 8796093022208)) = 833"
  by (simp add: rint_def int_part_def uint64_of_def floor_rat_numeral)

lemma rint_166_6: "rint rt (Fin (5861716389999411 / 35184372088832)) = 167"
  by (simp add: rint_def int_part_def uint64_of_def floor_rat_numeral rnd64_numeral)

text \<open>The equations that evaluate the calculation on a concrete input.\<close>

lemmas eval_defs = CalculatePrice_def calculateItem_def resolveTaxAmounts_def applyTaxes_def
  applyTax_def couponDiscount_def addMemberDiscount_def memberApplies_def HasClaims_def
  ValidForType_def calculateDiscount_def FixedDiscount_def float64_of_def addItem_def firstTax_def
  AppliesTo_def Let_def rnd64_numeral rint_numeral rint_0

subsection \<open>The order total\<close>

text \<open>
  C1. For every input, the \<open>Total\<close> of the returned price is \<open>Subtotal - Discount + Taxes\<close>
  of the same price (in \<open>uint64\<close> arithmetic, as the code computes it after the loop);
  for the empty item list every order field is \<open>0\<close>.
\<close>

theorem order_total_identity:
  "Total (CalculatePrice rt settings jwtClaims country currency coupon items) =
     Subtotal (CalculatePrice rt settings jwtClaims country currency coupon items)
     - Discount (CalculatePrice rt settings jwtClaims country currency coupon items)
     + Taxes (CalculatePrice rt settings jwtClaims country currency coupon items)
   \<and> CalculatePrice rt settings jwtClaims country currency coupon [] =
       \<lparr>Items = [], Subtotal = 0, Discount = 0, Taxes = 0, Total = 0\<rparr>"
  by (simp add: CalculatePrice_def Let_def)

subsection \<open>The loops as sums and maps\<close>

lemma foldl_addItem_Items:
  "Items (foldl (\<lambda>p item. addItem p (f item)) p0 items) = Items p0 @ map f items"
  by (induction items arbitrary: p0) (simp_all add: addItem_def)

lemma Items_CalculatePrice:
  "Items (CalculatePrice rt settings jwtClaims country currency coupon items) =
     map (calculateItem rt settings jwtClaims country currency coupon) items"
  by (simp add: CalculatePrice_def Let_def foldl_addItem_Items)

lemma foldl_addMemberDiscount:
  "foldl (addMemberDiscount rt jwt currency item sub taxes incl) acc ds =
     acc + sum_list (map (\<lambda>d. calculateDiscount rt sub taxes (Percentage d) (FixedDiscount rt d currency) incl)
             (filter (memberApplies jwt item) ds))"
  by (induction ds arbitrary: acc) (simp_all add: addMemberDiscount_def add.assoc)

lemma memberApplies_iff:
  "memberApplies jwt item =
     (\<lambda>d. \<exists>c. jwt = Some c
              \<and> (\<forall>(k, v) \<in> set (Claims d). c k = Some (StringClaim v))
              \<and> (ProductTypes d = [] \<or> ProductType item \<in> set (ProductTypes d)))"
  by (rule ext)
     (auto simp add: memberApplies_def HasClaims_def ValidForType_def list_all_iff
        split: option.splits)

lemma memberApplies_item:
  "ProductType item' = ProductType item \<Longrightarrow> memberApplies jwt item' d = memberApplies jwt item d"
  by (cases jwt) (simp_all add: memberApplies_def)

lemma addMemberDiscount_item:
  "ProductType item' = ProductType item \<Longrightarrow>
   addMemberDiscount rt jwt currency item' = addMemberDiscount rt jwt currency item"
  by (intro ext) (simp add: addMemberDiscount_def memberApplies_item [of item' item])

lemma firstTax_filter:
  "firstTax ts country ty =
     (case filter (\<lambda>t. AppliesTo t country ty) ts of [] \<Rightarrow> None | t # _ \<Rightarrow> Some t)"
  by (induction ts) (simp_all add: firstTax_def)

lemma resolveTaxAmounts_plain:
  assumes "FixedVAT item = 0" "TaxableItems item = []"
  shows "resolveTaxAmounts (Some s) country item subtotal =
       map (\<lambda>t. \<lparr>price = subtotal, percentage = Tax_Percentage t\<rparr>)
         (take 1 (filter (\<lambda>t. AppliesTo t country (ProductType item)) (Settings_Taxes s)))"
  using assms by (simp add: resolveTaxAmounts_def firstTax_filter split: list.splits)

subsection \<open>Member discounts\<close>

text \<open>
  C6. The \<open>Discount\<close> of an item is the coupon discount plus the sum, over exactly the
  member discounts that pass the gate, of the discount each of them computes on the
  item's subtotal and taxes: every eligible discount is added, no other one is. A member
  discount passes the gate when the claims are non-nil, every entry of its required
  claims is among the caller's claims with that string value, and its list of product
  types is empty or holds the product type of the item. With nil claims the \<open>Discount\<close>
  is the coupon discount alone.
\<close>

theorem member_discounts_gated_and_stacked:
  "Item_Discount (calculateItem rt (Some s) jwt country currency coupon item) =
     couponDiscount rt coupon currency item
       (Item_Subtotal (calculateItem rt (Some s) jwt country currency coupon item))
       (Item_Taxes (calculateItem rt (Some s) jwt country currency coupon item)) (PricesIncludeTaxes s)
     + sum_list (map (\<lambda>d. calculateDiscount rt
                 (Item_Subtotal (calculateItem rt (Some s) jwt country currency coupon item))
                 (Item_Taxes (calculateItem rt (Some s) jwt country currency coupon item))
                 (Percentage d) (FixedDiscount rt d currency) (PricesIncludeTaxes s))
          (filter (\<lambda>d. \<exists>c. jwt = Some c
                          \<and> (\<forall>(k, v) \<in> set (Claims d). c k = Some (StringClaim v))
                          \<and> (ProductTypes d = [] \<or> ProductType item \<in> set (ProductTypes d)))
             (MemberDiscounts s)))
   \<and> Item_Discount (calculateItem rt (Some s) None country currency coupon item) =
     couponDiscount rt coupon currency item
       (Item_Subtotal (calculateItem rt (Some s) None country currency coupon item))
       (Item_Taxes (calculateItem rt (Some s) None country currency coupon item)) (PricesIncludeTaxes s)
   \<and> Items (CalculatePrice rt (Some s) jwt country currency coupon items) =
     map (calculateItem rt (Some s) jwt country currency coupon) items"
  by (simp add: calculateItem_def Let_def foldl_addMemberDiscount memberApplies_iff
        Items_CalculatePrice split: prod.splits)

text \<open>
  On an e-book of \<open>1000\<close> with a 60 percent coupon (\<open>600\<close>): a 60 percent member
  discount adds \<open>600\<close> when the claim \<open>plan = gold\<close> is held and its list of product
  types is empty or names \<open>ebook\<close>; it adds nothing when the list names only \<open>book\<close>,
  when a second required claim is not held, when the claim has another value or is not a
  string, and when the claims are nil. Three discounts of which two are eligible add
  \<open>1200\<close>.
\<close>

theorem member_discounts_gated_and_stacked_witness:
  "Item_Discount (calculateItem rt_wrap
       (Some \<lparr>PricesIncludeTaxes = False, Settings_Taxes = [], MemberDiscounts = [gold]\<rparr>)
       (Some gold_claims) ''DE'' ''EUR'' (Some coupon60) ebook) = 600 + 600
   \<and> Item_Discount (calculateItem rt_wrap
       (Some \<lparr>PricesIncludeTaxes = False, Settings_Taxes = [],
              MemberDiscounts = [gold\<lparr>ProductTypes := [''book'']\<rparr>]\<rparr>)
       (Some gold_claims) ''DE'' ''EUR'' (Some coupon60) ebook) = 600
   \<and> Item_Discount (calculateItem rt_wrap
       (Some \<lparr>PricesIncludeTaxes = False, Settings_Taxes = [],
              MemberDiscounts = [gold\<lparr>ProductTypes := [''book'', ''ebook'']\<rparr>]\<rparr>)
       (Some gold_claims) ''DE'' ''EUR'' (Some coupon60) ebook) = 600 + 600
   \<and> Item_Discount (calculateItem rt_wrap
       (Some \<lparr>PricesIncludeTaxes = False, Settings_Taxes = [],
              MemberDiscounts = [gold\<lparr>Claims := [(''plan'', ''gold''), (''tier'', ''vip'')]\<rparr>]\<rparr>)
       (Some gold_claims) ''DE'' ''EUR'' (Some coupon60) ebook) = 600
   \<and> Item_Discount (calculateItem rt_wrap
       (Some \<lparr>PricesIncludeTaxes = False, Settings_Taxes = [], MemberDiscounts = [gold]\<rparr>)
       (Some [''plan'' \<mapsto> StringClaim ''silver'']) ''DE'' ''EUR'' (Some coupon60) ebook) = 600
   \<and> Item_Discount (calculateItem rt_wrap
       (Some \<lparr>PricesIncludeTaxes = False, Settings_Taxes = [], MemberDiscounts = [gold]\<rparr>)
       (Some [''plan'' \<mapsto> OtherClaim]) ''DE'' ''EUR'' (Some coupon60) ebook) = 600
   \<and> Item_Discount (calculateItem rt_wrap
       (Some \<lparr>PricesIncludeTaxes = False, Settings_Taxes = [], MemberDiscounts = [gold]\<rparr>)
       None ''DE'' ''EUR'' (Some coupon60) ebook) = 600
   \<and> Item_Discount (calculateItem rt_wrap
       (Some \<lparr>PricesIncludeTaxes = False, Settings_Taxes = [],
              MemberDiscounts = [gold, gold\<lparr>ProductTypes := [''book'']\<rparr>,
                                 gold\<lparr>ProductTypes := [''ebook'']\<rparr>]\<rparr>)
       (Some gold_claims) ''DE'' ''EUR'' (Some coupon60) ebook) = 600 + 600 + 600"
  using member_discounts_gated_and_stacked [where rt = rt_wrap and jwt = "Some gold_claims"
      and s = "\<lparr>PricesIncludeTaxes = False, Settings_Taxes = [],
              MemberDiscounts = [gold, gold\<lparr>ProductTypes := [''book'']\<rparr>,
                                 gold\<lparr>ProductTypes := [''ebook'']\<rparr>]\<rparr>"
      and country = "''DE''" and currency = "''EUR''" and coupon = "Some coupon60"
      and item = ebook and items = "[]"]
  by (simp add: eval_defs gold_def gold_claims_def ebook_def coupon60_def)

subsection \<open>Tax resolution\<close>

text \<open>
  C7. For an item whose fixed VAT is not zero, the tax resolution yields exactly one tax
  amount, the item's whole subtotal with the fixed percentage; the price of the item is
  the same whatever the tax rules of the settings, the country and the item's taxable
  sub-items are.
\<close>

theorem fixed_vat_overrides_tax_rules:
  assumes "vat \<noteq> 0"
  shows "resolveTaxAmounts settings country (Item sku p ty vat subs q) subtotal =
           [\<lparr>price = subtotal, percentage = vat\<rparr>]
       \<and> calculateItem rt (Some (s\<lparr>Settings_Taxes := ts'\<rparr>)) jwt country' currency coupon
             (Item sku p ty vat subs' q)
         = calculateItem rt (Some s) jwt country currency coupon (Item sku p ty vat subs q)"
proof -
  have c: "couponDiscount rt coupon currency (Item sku p ty vat subs' q) =
           couponDiscount rt coupon currency (Item sku p ty vat subs q)"
    by (intro ext, cases coupon) (simp_all add: couponDiscount_def)
  have m: "addMemberDiscount rt jwt currency (Item sku p ty vat subs' q) =
           addMemberDiscount rt jwt currency (Item sku p ty vat subs q)"
    by (rule addMemberDiscount_item) simp
  show ?thesis
    using assms by (simp add: calculateItem_def resolveTaxAmounts_def Let_def c m)
qed

theorem fixed_vat_overrides_tax_rules_witness:
  "resolveTaxAmounts (Some \<lparr>PricesIncludeTaxes = False, Settings_Taxes = [vat20], MemberDiscounts = []\<rparr>)
       ''DE'' (Item ''sku-1'' 1000 ''ebook'' 7 [ebook] 1) 1000 = [\<lparr>price = 1000, percentage = 7\<rparr>]
   \<and> calculateItem rt_wrap
        (Some (\<lparr>PricesIncludeTaxes = False, Settings_Taxes = [vat20], MemberDiscounts = []\<rparr>
                 \<lparr>Settings_Taxes := []\<rparr>))
        None ''FR'' ''EUR'' None (Item ''sku-1'' 1000 ''ebook'' 7 [] 1)
     = calculateItem rt_wrap
        (Some \<lparr>PricesIncludeTaxes = False, Settings_Taxes = [vat20], MemberDiscounts = []\<rparr>)
        None ''DE'' ''EUR'' None (Item ''sku-1'' 1000 ''ebook'' 7 [ebook] 1)"
  using fixed_vat_overrides_tax_rules [where vat = 7 and sku = "''sku-1''" and p = 1000
      and ty = "''ebook''" and q = 1 and subtotal = 1000 and subs = "[ebook]" and subs' = "[]"
      and settings = "Some \<lparr>PricesIncludeTaxes = False, Settings_Taxes = [vat20], MemberDiscounts = []\<rparr>"
      and s = "\<lparr>PricesIncludeTaxes = False, Settings_Taxes = [vat20], MemberDiscounts = []\<rparr>"
      and ts' = "[]" and country = "''DE''" and country' = "''FR''" and currency = "''EUR''"
      and rt = rt_wrap and jwt = None and coupon = None]
  by simp

text \<open>
  C8. For an item without a fixed VAT and without taxable sub-items, the tax resolution
  yields the first rule, in declared order, that applies to the country and the product
  type of the item: the rule after a prefix of rules that do not apply, whatever follows
  it. When no rule applies there is no tax amount and the \<open>Taxes\<close> of the item are \<open>0\<close>.
\<close>

theorem first_matching_tax_rule_wins:
  assumes "FixedVAT item = 0" and "TaxableItems item = []"
  shows "resolveTaxAmounts (Some s) country item subtotal =
           map (\<lambda>t. \<lparr>price = subtotal, percentage = Tax_Percentage t\<rparr>)
             (take 1 (filter (\<lambda>t. AppliesTo t country (ProductType item)) (Settings_Taxes s)))
       \<and> (Settings_Taxes s = before @ t # rest
            \<and> (\<forall>u \<in> set before. \<not> AppliesTo u country (ProductType item))
            \<and> AppliesTo t country (ProductType item)
          \<longrightarrow> resolveTaxAmounts (Some s) country item subtotal =
                [\<lparr>price = subtotal, percentage = Tax_Percentage t\<rparr>])
       \<and> ((\<forall>u \<in> set (Settings_Taxes s). \<not> AppliesTo u country (ProductType item))
          \<longrightarrow> resolveTaxAmounts (Some s) country item subtotal = []
              \<and> Item_Taxes (calculateItem rt (Some s) jwt country currency coupon item) = 0)"
proof (intro conjI impI)
  show first: "resolveTaxAmounts (Some s) country item subtotal =
           map (\<lambda>t. \<lparr>price = subtotal, percentage = Tax_Percentage t\<rparr>)
             (take 1 (filter (\<lambda>t. AppliesTo t country (ProductType item)) (Settings_Taxes s)))"
    for subtotal
    by (rule resolveTaxAmounts_plain [OF assms])
  {
    assume h: "Settings_Taxes s = before @ t # rest
            \<and> (\<forall>u \<in> set before. \<not> AppliesTo u country (ProductType item))
            \<and> AppliesTo t country (ProductType item)"
    then have "filter (\<lambda>t. AppliesTo t country (ProductType item)) before = []"
      by (simp add: filter_empty_conv)
    with h show "resolveTaxAmounts (Some s) country item subtotal =
                [\<lparr>price = subtotal, percentage = Tax_Percentage t\<rparr>]"
      by (simp add: first)
  }
  {
    assume "\<forall>u \<in> set (Settings_Taxes s). \<not> AppliesTo u country (ProductType item)"
    then have none: "filter (\<lambda>t. AppliesTo t country (ProductType item)) (Settings_Taxes s) = []"
      by (simp add: filter_empty_conv)
    then show "resolveTaxAmounts (Some s) country item subtotal = []"
      by (simp add: first)
    from none have "resolveTaxAmounts (Some s) country item (PriceInLowestUnit item) = []"
      by (simp add: first)
    then show "Item_Taxes (calculateItem rt (Some s) jwt country currency coupon item) = 0"
      by (simp add: calculateItem_def Let_def applyTaxes_def)
  }
qed

theorem first_matching_tax_rule_wins_witness:
  "resolveTaxAmounts
       (Some \<lparr>PricesIncludeTaxes = False, Settings_Taxes = [books7, vat20, luxury25], MemberDiscounts = []\<rparr>)
       ''DE'' ebook 1000 = [\<lparr>price = 1000, percentage = 20\<rparr>]
   \<and> resolveTaxAmounts
       (Some \<lparr>PricesIncludeTaxes = False, Settings_Taxes = [books7], MemberDiscounts = []\<rparr>)
       ''DE'' ebook 1000 = []
   \<and> Item_Taxes (calculateItem rt_wrap
       (Some \<lparr>PricesIncludeTaxes = False, Settings_Taxes = [books7], MemberDiscounts = []\<rparr>)
       None ''DE'' ''EUR'' None ebook) = 0"
  using first_matching_tax_rule_wins [where item = ebook
      and s = "\<lparr>PricesIncludeTaxes = False, Settings_Taxes = [books7, vat20, luxury25], MemberDiscounts = []\<rparr>"
      and before = "[books7]" and t = vat20 and rest = "[luxury25]" and country = "''DE''"
      and subtotal = 1000 and rt = rt_wrap and jwt = None and currency = "''EUR''" and coupon = None]
    first_matching_tax_rule_wins [where item = ebook
      and s = "\<lparr>PricesIncludeTaxes = False, Settings_Taxes = [books7], MemberDiscounts = []\<rparr>"
      and before = "[]" and t = books7 and rest = "[]" and country = "''DE''"
      and subtotal = 1000 and rt = rt_wrap and jwt = None and currency = "''EUR''" and coupon = None]
  by (simp add: ebook_def books7_def vat20_def luxury25_def AppliesTo_def)

subsection \<open>Product allow-lists of member discounts\<close>

lemma addMemberDiscount_Products:
  "addMemberDiscount rt jwt currency item sub taxes incl acc (d\<lparr>Products := ps\<rparr>) =
   addMemberDiscount rt jwt currency item sub taxes incl acc d"
proof -
  have "memberApplies jwt item (d\<lparr>Products := ps\<rparr>) = memberApplies jwt item d"
    by (cases jwt) (simp_all add: memberApplies_def ValidForType_def)
  moreover have "FixedDiscount rt (d\<lparr>Products := ps\<rparr>) currency = FixedDiscount rt d currency"
    by (simp add: FixedDiscount_def)
  ultimately show ?thesis by (simp add: addMemberDiscount_def)
qed

lemma foldl_addMemberDiscount_Products:
  "list_all2 (\<lambda>d d'. \<exists>ps. d' = d\<lparr>Products := ps\<rparr>) ds ds' \<Longrightarrow>
   foldl (addMemberDiscount rt jwt currency item sub taxes incl) acc ds' =
   foldl (addMemberDiscount rt jwt currency item sub taxes incl) acc ds"
  by (induction ds ds' arbitrary: acc rule: list_all2_induct)
     (auto simp add: addMemberDiscount_Products)

lemma calculateItem_Products:
  "list_all2 (\<lambda>d d'. \<exists>ps. d' = d\<lparr>Products := ps\<rparr>) (MemberDiscounts s) ds' \<Longrightarrow>
   calculateItem rt (Some (s\<lparr>MemberDiscounts := ds'\<rparr>)) jwt country currency coupon item =
   calculateItem rt (Some s) jwt country currency coupon item"
  by (simp add: calculateItem_def Let_def resolveTaxAmounts_def
        foldl_addMemberDiscount_Products [of "MemberDiscounts s" ds'] split: prod.splits)

text \<open>
  C10. Two calls whose settings differ only in the \<open>Products\<close> lists of the member
  discounts return the same price: \<open>ValidForProduct\<close> is not consulted.
\<close>

theorem price_independent_of_member_products:
  "list_all2 (\<lambda>d d'. \<exists>ps. d' = d\<lparr>Products := ps\<rparr>) (MemberDiscounts s) ds' \<Longrightarrow>
   CalculatePrice rt (Some (s\<lparr>MemberDiscounts := ds'\<rparr>)) jwt country currency coupon items =
   CalculatePrice rt (Some s) jwt country currency coupon items"
  by (simp add: CalculatePrice_def calculateItem_Products)

theorem price_independent_of_member_products_witness:
  "\<not> ValidForProduct (gold\<lparr>Products := [''sku-2'']\<rparr>) (ProductSku ebook)
   \<and> ValidForProduct gold (ProductSku ebook)
   \<and> CalculatePrice rt_wrap
       (Some (\<lparr>PricesIncludeTaxes = False, Settings_Taxes = [vat20], MemberDiscounts = [gold]\<rparr>
                \<lparr>MemberDiscounts := [gold\<lparr>Products := [''sku-2'']\<rparr>]\<rparr>))
       (Some gold_claims) ''DE'' ''EUR'' None [ebook]
     = CalculatePrice rt_wrap
       (Some \<lparr>PricesIncludeTaxes = False, Settings_Taxes = [vat20], MemberDiscounts = [gold]\<rparr>)
       (Some gold_claims) ''DE'' ''EUR'' None [ebook]"
  using price_independent_of_member_products [where
      s = "\<lparr>PricesIncludeTaxes = False, Settings_Taxes = [vat20], MemberDiscounts = [gold]\<rparr>"
      and ds' = "[gold\<lparr>Products := [''sku-2'']\<rparr>]" and rt = rt_wrap and jwt = "Some gold_claims"
      and country = "''DE''" and currency = "''EUR''" and coupon = None and items = "[ebook]"]
  by (simp add: ValidForProduct_def gold_def ebook_def)

subsection \<open>The discount clamp\<close>

lemma calculateDiscount_le:
  "calculateDiscount rt a t p f incl \<le> (if incl then a + t else a)"
  unfolding calculateDiscount_def Let_def by (cases incl) auto

text \<open>
  C4. For every base amount, tax amount, percentage and fixed amount, the discount that
  \<open>calculateDiscount\<close> returns does not exceed its discountable base: the base plus the
  taxes with tax-inclusive pricing, the base alone otherwise (as \<open>uint64\<close> values, and so
  as numbers too). Base \<open>100\<close> with percentage \<open>150\<close> yields \<open>100\<close>, and without a
  percentage the result is the smaller of the fixed amount and the base.
\<close>

theorem discount_never_exceeds_base:
  "calculateDiscount rt base taxes percent fixed includeTaxes
     \<le> (if includeTaxes then base + taxes else base)
   \<and> unat (calculateDiscount rt base taxes percent fixed includeTaxes)
     \<le> (if includeTaxes then unat base + unat taxes else unat base)
   \<and> calculateDiscount rt 100 taxes 150 0 False = 100
   \<and> calculateDiscount rt base taxes 0 fixed False = min fixed base"
proof (intro conjI)
  show le: "calculateDiscount rt base taxes percent fixed includeTaxes
     \<le> (if includeTaxes then base + taxes else base)"
    by (rule calculateDiscount_le)
  have "unat (calculateDiscount rt base taxes percent fixed includeTaxes)
      \<le> unat (if includeTaxes then base + taxes else base)"
    using le by (simp only: word_le_nat_alt)
  also have "\<dots> \<le> (if includeTaxes then unat base + unat taxes else unat base)"
    by (simp add: unat_word_ariths)
  finally show "unat (calculateDiscount rt base taxes percent fixed includeTaxes)
     \<le> (if includeTaxes then unat base + unat taxes else unat base)" .
  show "calculateDiscount rt 100 taxes 150 0 False = 100"
    by (simp add: calculateDiscount_def float64_of_def rnd64_numeral rint_numeral)
  show "calculateDiscount rt base taxes 0 fixed False = min fixed base"
    by (auto simp add: calculateDiscount_def Let_def min_def)
qed

theorem discount_never_exceeds_base_witness:
  "calculateDiscount rt_wrap 1000 200 60 900 True \<le> 1200
   \<and> calculateDiscount rt_wrap 1000 200 60 900 True = 1200"
  using discount_never_exceeds_base [of rt_wrap 1000 200 60 900 True]
  by (simp add: calculateDiscount_def float64_of_def rnd64_numeral rint_numeral)

subsection \<open>The item total\<close>

text \<open>
  C2. The claim is that an item total that would be negative is clamped to \<open>0\<close>. The
  code subtracts first and compares the \<open>uint64\<close> result with \<open>0\<close> afterwards, which is
  never true. With a 60 percent coupon and a 60 percent member discount on an item of
  \<open>1000\<close> the discount is \<open>1200\<close>, and the item total and the order total are
  \<open>2 ^ 64 - 200\<close>, not \<open>0\<close>.
\<close>

theorem item_total_wraps_around:
  "CalculatePrice rt_wrap
     (Some \<lparr>PricesIncludeTaxes = False, Settings_Taxes = [], MemberDiscounts = [gold]\<rparr>)
     (Some gold_claims) ''DE'' ''EUR'' (Some coupon60) [ebook] =
   \<lparr>Items = [\<lparr>Quantity = 1, Item_Subtotal = 1000, Item_Discount = 1200, Item_Taxes = 0,
               Item_Total = 18446744073709551416\<rparr>],
    Subtotal = 1000, Discount = 1200, Taxes = 0, Total = 18446744073709551416\<rparr>"
  by (simp add: eval_defs gold_def gold_claims_def ebook_def coupon60_def)

subsection \<open>Nil settings\<close>

text \<open>
  C9, as stated, fails: with nil settings an item with a fixed VAT of 20 percent and a
  price of \<open>1000\<close> has taxes \<open>200\<close>.
\<close>

theorem nil_settings_fixed_vat_counterexample:
  "map Item_Taxes
     (Items (CalculatePrice rt_wrap None None ''DE'' ''EUR'' None [Item ''sku-1'' 1000 ''ebook'' 20 [] 1]))
   = [200]"
  by (simp add: eval_defs)

text \<open>
  C9, amended. With nil settings the calculation yields one item price per item; the
  discount of each is the coupon discount alone (no member discount, whatever the claims
  are); an item without a fixed VAT has taxes \<open>0\<close> and keeps its price as subtotal; an
  item with a fixed VAT is taxed at that percentage on its price.
\<close>

theorem nil_settings_no_rules_no_member_discounts:
  "length (Items (CalculatePrice rt None jwt country currency coupon items)) = length items
   \<and> (\<forall>i < length items.
        let ip = Items (CalculatePrice rt None jwt country currency coupon items) ! i;
            item = items ! i
        in Item_Discount ip =
             couponDiscount rt coupon currency item (Item_Subtotal ip) (Item_Taxes ip) False
           \<and> Item_Subtotal ip = PriceInLowestUnit item
           \<and> (FixedVAT item = 0 \<longrightarrow> Item_Taxes ip = 0)
           \<and> (FixedVAT item \<noteq> 0 \<longrightarrow>
                Item_Taxes ip =
                  rint rt (fdiv (fmul (float64_of (PriceInLowestUnit item))
                                      (float64_of (FixedVAT item))) (Fin 100))))"
  by (simp add: Items_CalculatePrice calculateItem_def Let_def resolveTaxAmounts_def
        applyTaxes_def applyTax_def)

theorem nil_settings_no_rules_no_member_discounts_witness:
  "Items (CalculatePrice rt_wrap None (Some gold_claims) ''DE'' ''EUR'' (Some coupon60) [ebook]) =
     [\<lparr>Quantity = 1, Item_Subtotal = 1000, Item_Discount = 600, Item_Taxes = 0, Item_Total = 400\<rparr>]
   \<and> Item_Taxes (Items (CalculatePrice rt_wrap None (Some gold_claims) ''DE'' ''EUR'' (Some coupon60) [ebook]) ! 0) = 0"
  using nil_settings_no_rules_no_member_discounts [where rt = rt_wrap and jwt = "Some gold_claims"
      and country = "''DE''" and currency = "''EUR''" and coupon = "Some coupon60" and items = "[ebook]"]
  by (simp add: eval_defs ebook_def coupon60_def)

subsection \<open>Tax-exclusive and tax-inclusive pricing\<close>

text \<open>
  C5. One item of price \<open>1000\<close> and quantity \<open>1\<close>, without fixed VAT and sub-items, a
  first tax rule of 20 percent that applies, no coupon and no member discounts: with
  tax-exclusive settings the price has subtotal \<open>1000\<close>, taxes \<open>200\<close> and total
  \<open>1200\<close>; with tax-inclusive settings it has subtotal \<open>833\<close>, taxes \<open>167\<close> and total
  \<open>1000\<close>.
\<close>

theorem exclusive_and_inclusive_scenario:
  assumes "AppliesTo t country ty" and "Tax_Percentage t = 20"
  shows "CalculatePrice rt
         (Some \<lparr>PricesIncludeTaxes = False, Settings_Taxes = t # rest, MemberDiscounts = []\<rparr>)
         jwt country currency None [Item sku 1000 ty 0 [] 1] =
       \<lparr>Items = [\<lparr>Quantity = 1, Item_Subtotal = 1000, Item_Discount = 0, Item_Taxes = 200,
                   Item_Total = 1200\<rparr>],
        Subtotal = 1000, Discount = 0, Taxes = 200, Total = 1200\<rparr>
     \<and> CalculatePrice rt
         (Some \<lparr>PricesIncludeTaxes = True, Settings_Taxes = t # rest, MemberDiscounts = []\<rparr>)
         jwt country currency None [Item sku 1000 ty 0 [] 1] =
       \<lparr>Items = [\<lparr>Quantity = 1, Item_Subtotal = 833, Item_Discount = 0, Item_Taxes = 167,
                   Item_Total = 1000\<rparr>],
        Subtotal = 833, Discount = 0, Taxes = 167, Total = 1000\<rparr>"
  using assms
  by (simp add: CalculatePrice_def calculateItem_def resolveTaxAmounts_def applyTaxes_def
        applyTax_def couponDiscount_def float64_of_def addItem_def firstTax_def
        Let_def rnd64_numeral rint_numeral rnd64_25_3 rnd64_833_33 rnd64_166_6
        rint_833_33 rint_166_6)

theorem exclusive_and_inclusive_scenario_witness:
  "CalculatePrice rt_wrap
       (Some \<lparr>PricesIncludeTaxes = False, Settings_Taxes = [vat20], MemberDiscounts = []\<rparr>)
       None ''DE'' ''EUR'' None [Item ''sku-1'' 1000 ''ebook'' 0 [] 1] =
     \<lparr>Items = [\<lparr>Quantity = 1, Item_Subtotal = 1000, Item_Discount = 0, Item_Taxes = 200,
                 Item_Total = 1200\<rparr>],
      Subtotal = 1000, Discount = 0, Taxes = 200, Total = 1200\<rparr>
   \<and> CalculatePrice rt_wrap
       (Some \<lparr>PricesIncludeTaxes = True, Settings_Taxes = [vat20], MemberDiscounts = []\<rparr>)
       None ''DE'' ''EUR'' None [Item ''sku-1'' 1000 ''ebook'' 0 [] 1] =
     \<lparr>Items = [\<lparr>Quantity = 1, Item_Subtotal = 833, Item_Discount = 0, Item_Taxes = 167,
                 Item_Total = 1000\<rparr>],
      Subtotal = 833, Discount = 0, Taxes = 167, Total = 1000\<rparr>"
  using exclusive_and_inclusive_scenario [where t = vat20 and country = "''DE''" and ty = "''ebook''"
      and rest = "[]" and rt = rt_wrap and jwt = None and currency = "''EUR''" and sku = "''sku-1''"]
  by (simp add: vat20_def AppliesTo_def)

subsection \<open>The rounding primitive\<close>

lemma float64_large_is_int:
  assumes "is_float64 x" "2 ^ 52 \<le> \<bar>x\<bar>"
  shows "\<exists>k. x = of_int k"
proof -
  define e where "e = ilog2 \<bar>x\<bar>"
  have "(0::rat) < 2 ^ 52" by simp
  with assms(2) have xpos: "0 < \<bar>x\<bar>" by linarith
  then have xne: "x \<noteq> 0" by simp
  have b: "2 powi e \<le> \<bar>x\<bar>" "\<bar>x\<bar> < 2 powi (e + 1)"
    using ilog2_bounds [OF xpos] by (simp_all add: e_def)
  have e52: "52 \<le> e"
  proof (rule ccontr)
    assume "\<not> 52 \<le> e"
    then have "e + 1 \<le> 52" by simp
    then have "(2::rat) powi (e + 1) \<le> 2 powi 52" by (intro power_int_increasing) simp_all
    with b(2) assms(2) show False by simp
  qed
  have m: "max (ilog2 \<bar>x\<bar>) (- 1022) = e" using e52 by (simp add: e_def)
  have q: "(2::rat) powi (e - 52) = of_int (2 ^ nat (e - 52))"
    using e52 by (simp add: power_int_def)
  have "rnd64 x = Fin x" using assms(1) by (simp add: is_float64_def)
  then have "of_int (nearest_even (x / 2 powi (e - 52))) * 2 powi (e - 52) = x"
    unfolding rnd64_def Let_def m using xne by (simp split: if_splits)
  then have "x = of_int (nearest_even (x / 2 powi (e - 52)) * 2 ^ nat (e - 52))"
    unfolding q by simp
  then show ?thesis ..
qed

lemma word64_odd_iff: "(word_of_int v :: 64 word) mod 2 \<noteq> 0 \<longleftrightarrow> odd v"
  by (simp add: even_of_int_iff flip: even_iff_mod_2_eq_zero)

lemma uint_word64: "0 \<le> k \<Longrightarrow> k < 2 ^ 64 \<Longrightarrow> uint (word_of_int k :: 64 word) = k"
  by (simp add: uint_word_of_int)


lemma rint_nonneg_half_even:
  assumes "is_float64 x" "0 \<le> x" "x < 2 ^ 64"
  shows "round_half_even x (uint (rint rt (Fin x)))"
proof -
  define v where "v = \<lfloor>x\<rfloor>"
  define f where "f = x - of_int v"
  have f: "0 \<le> f" "f < 1" using floor_correct [of x] by (simp_all add: f_def v_def)
  have x: "x = of_int v + f" by (simp add: f_def)
  have v0: "0 \<le> v" using assms(2) by (simp add: v_def)
  have "x < of_int (2 ^ 64)" using assms(3) by simp
  then have v64: "v < 2 ^ 64" unfolding v_def by (simp only: floor_less_iff)
  have ip: "int_part x = v" using assms(2) by (simp add: int_part_def v_def)
  have M: "Modf (Fin x) = (Fin (of_int v), Fin f)" by (simp add: ip f_def)
  have u: "uint64_of rt (Fin (of_int v)) = word_of_int v"
    using v0 v64 by (simp add: uint64_of_def)
  show ?thesis
  proof (cases "1 / 2 < f \<or> (f = 1 / 2 \<and> odd v)")
    case True
    then have fpos: "0 < f" by auto
    then have xpos: "0 < x" using v0 by (simp add: x add_nonneg_pos)
    have small: "x < 2 ^ 52"
    proof (rule ccontr)
      assume "\<not> x < 2 ^ 52"
      then have "2 ^ 52 \<le> \<bar>x\<bar>" using assms(2) by simp
      then obtain k where k: "x = of_int k" using float64_large_is_int [OF assms(1)] by blast
      then have "f = 0" by (simp add: f_def v_def)
      with fpos show False by simp
    qed
    have "x < of_int (2 ^ 52)" using small by simp
    then have v52: "v < 2 ^ 52" unfolding v_def by (simp only: floor_less_iff)
    have "rnd64 (of_int (v + 1)) = Fin (of_int (v + 1))"
      using v0 v52 by (intro rnd64_of_int) simp
    then have a: "fadd (Fin (of_int v)) (Fin 1) = Fin (of_int (v + 1))" by simp
    have ip1: "int_part (of_int v + 1) = v + 1" using int_part_of_int [of "v + 1"] by simp
    have u1: "uint64_of rt (Fin (of_int (v + 1))) = word_of_int (v + 1)"
      using v0 v52 by (simp add: uint64_of_def ip1)
    have c: "fless (Fin (1 / 2)) (Fin f) \<or>
             (feq (Fin f) (Fin (1 / 2)) \<and> uint64_of rt (Fin (of_int v)) mod 2 \<noteq> 0)"
      unfolding u using True by (simp only: fless.simps feq.simps word64_odd_iff)
    have p: "fless (Fin 0) (Fin x)" using xpos by simp
    have r: "rint rt (Fin x) = word_of_int (v + 1)"
      unfolding rint_def M using c p by (simp only: Let_def prod.case if_True a u1)
    have "uint (rint rt (Fin x)) = v + 1"
      unfolding r using v0 v52 by (intro uint_word64) simp_all
    moreover have "\<bar>x - of_int (v + 1)\<bar> = 1 - f" using f by (simp add: x)
    moreover have "1 - f \<le> 1 / 2" using True by auto
    moreover have "even (v + 1)" if "1 - f = 1 / 2"
    proof -
      from that have "f = 1 / 2" by simp
      with True show ?thesis by simp
    qed
    ultimately show ?thesis by (simp add: round_half_even_def)
  next
    case False
    have c: "\<not> (fless (Fin (1 / 2)) (Fin f) \<or>
             (feq (Fin f) (Fin (1 / 2)) \<and> uint64_of rt (Fin (of_int v)) mod 2 \<noteq> 0))"
      unfolding u using False by (simp only: fless.simps feq.simps word64_odd_iff simp_thms)
    have n: "\<not> (fless (Fin f) (Fin (- (1 / 2))) \<or>
             (feq (Fin f) (Fin (- (1 / 2))) \<and> uint64_of rt (Fin (of_int v)) mod 2 \<noteq> 0))"
      using f by auto
    have r: "rint rt (Fin x) = word_of_int v"
      unfolding rint_def M using c n by (simp only: Let_def prod.case if_False if_cancel u)
    have "uint (rint rt (Fin x)) = v"
      unfolding r using v0 v64 by (rule uint_word64)
    moreover have "\<bar>x - of_int v\<bar> = f" using f by (simp add: x)
    moreover have "f \<le> 1 / 2" using False by auto
    moreover have "even v" if "f = 1 / 2" using that False by simp
    ultimately show ?thesis by (simp add: round_half_even_def)
  qed
qed

lemma rint_half_examples:
  "rint rt (Fin (5 / 2)) = 2 \<and> rint rt (Fin (7 / 2)) = 4"
  by (simp add: rint_def int_part_def uint64_of_def floor_rat_numeral rnd64_numeral)

lemma is_float64_examples: "is_float64 (5 / 2) \<and> is_float64 (7 / 2)"
proof -
  have "rnd64 (5 / 2) = Fin (5 / 2)"
    by (rule rnd64_exact [where e = 1 and m = "5 * 2 ^ 50"]) simp_all
  moreover have "rnd64 (7 / 2) = Fin (7 / 2)"
    by (rule rnd64_exact [where e = 1 and m = "7 * 2 ^ 50"]) simp_all
  ultimately show ?thesis by (simp add: is_float64_def)
qed

lemma rint_neg: "rint rt (Fin (- (5 / 2))) =
   (if unrepresentable rt (Fin (- 2)) mod 2 \<noteq> 0 then unrepresentable rt (Fin (- 3))
    else unrepresentable rt (Fin (- 2)))"
proof -
  have "rnd64 (of_int (- 3)) = Fin (of_int (- 3))" by (rule rnd64_of_int) simp
  then have s: "fsub (Fin (- 2)) (Fin 1) = Fin (- 3)" by (simp add: fsub_def)
  have c: "\<lceil>- (5 / 2) :: rat\<rceil> = - 2" by (simp add: floor_rat_numeral ceiling_def)
  have M: "Modf (Fin (- (5 / 2))) = (Fin (- 2), Fin (- (1 / 2)))"
    by (simp add: int_part_def c)
  show ?thesis unfolding rint_def M by (simp add: s uint64_of_def int_part_def)
qed

text \<open>
  C3, as stated, fails for negative inputs: \<open>rint\<close> returns a \<open>uint64\<close>, which is never
  \<open>-2\<close>. On \<open>-2.5\<close> the result is the conversion of \<open>-2.0\<close> to \<open>uint64\<close>, with
  wrap-around \<open>2 ^ 64 - 2\<close>.
\<close>

theorem rint_negative_half_counterexample:
  "uint (rint rt_wrap (Fin (- (5 / 2)))) = 18446744073709551614
   \<and> \<not> (\<exists>rt. uint (rint rt (Fin (- (5 / 2)))) = - 2)"
proof -
  have "uint (rint rt (Fin (- (5 / 2)))) \<noteq> - 2" for rt
  proof
    assume "uint (rint rt (Fin (- (5 / 2)))) = - 2"
    moreover have "0 \<le> uint (rint rt (Fin (- (5 / 2))))" by simp
    ultimately show False by linarith
  qed
  moreover have "uint (rint rt_wrap (Fin (- (5 / 2)))) = 18446744073709551614"
    by (simp add: rint_neg rt_wrap_def int_part_def)
  ultimately show ?thesis by simp
qed

text \<open>
  C3, amended. For every float64 value \<open>x\<close> with \<open>0 \<le> x < 2 ^ 64\<close>, \<open>rint\<close> returns
  \<open>x\<close> rounded half to even; \<open>rint 2.5 = 2\<close> and \<open>rint 3.5 = 4\<close>. On \<open>-2.5\<close> it
  returns what the platform converts \<open>-2.0\<close> to (\<open>-3.0\<close> where that value is odd), an
  unsigned number.
\<close>

theorem rint_rounds_half_to_even:
  assumes "is_float64 x" and "0 \<le> x" and "x < 2 ^ 64"
  shows "round_half_even x (uint (rint rt (Fin x)))
       \<and> rint rt (Fin (5 / 2)) = 2 \<and> rint rt (Fin (7 / 2)) = 4
       \<and> rint rt (Fin (- (5 / 2))) =
           (if unrepresentable rt (Fin (- 2)) mod 2 \<noteq> 0 then unrepresentable rt (Fin (- 3))
            else unrepresentable rt (Fin (- 2)))"
  using rint_nonneg_half_even [OF assms] rint_half_examples [of rt] rint_neg [of rt]
  by (simp only: simp_thms)

theorem rint_rounds_half_to_even_witness:
  "is_float64 (5 / 2) \<and> is_float64 (7 / 2)
   \<and> round_half_even (5 / 2) (uint (rint rt_wrap (Fin (5 / 2))))
   \<and> round_half_even (7 / 2) (uint (rint rt_wrap (Fin (7 / 2))))
   \<and> uint (rint rt_wrap (Fin (5 / 2))) = 2 \<and> uint (rint rt_wrap (Fin (7 / 2))) = 4"
proof -
  have f: "is_float64 (5 / 2)" "is_float64 (7 / 2)"
    using is_float64_examples by simp_all
  have p5: "(0::rat) \<le> 5 / 2" "(5 / 2 :: rat) < 2 ^ 64" by simp_all
  have p7: "(0::rat) \<le> 7 / 2" "(7 / 2 :: rat) < 2 ^ 64" by simp_all
  note t5 = rint_rounds_half_to_even [OF f(1) p5, where rt = rt_wrap]
  note t7 = rint_rounds_half_to_even [OF f(2) p7, where rt = rt_wrap]
  have a: "round_half_even (5 / 2) (uint (rint rt_wrap (Fin (5 / 2))))
      \<and> rint rt_wrap (Fin (5 / 2)) = 2 \<and> rint rt_wrap (Fin (7 / 2)) = 4"
    using t5 by blast
  have b: "round_half_even (7 / 2) (uint (rint rt_wrap (Fin (7 / 2))))"
    using t7 by blast
  have c: "uint (rint rt_wrap (Fin (5 / 2))) = 2" "uint (rint rt_wrap (Fin (7 / 2))) = 4"
    using a by simp_all
  show ?thesis using f a b c by blast
qed

end
